theory Spec2Isabelle
  imports Complex_Main
begin

section \<open>Python values shared by both notebooks\<close>

text \<open>
  The exceptions that the modelled statements can raise. \<open>KeyError\<close> is a failed
  dictionary or column lookup, \<open>IndexError\<close> an out-of-range array index,
  \<open>ValueError\<close> an argument that a library call rejects for its value, \<open>TypeError\<close>
  one that it rejects for its type, \<open>RuntimeError\<close> a shape mismatch in the linear
  head, \<open>FileNotFoundError\<close> a missing CSV file and \<open>NotImplementedError\<close> the
  explicit raise of \<open>build_ncf_model\<close>.
\<close>

datatype error =
  KeyError | IndexError | ValueError | TypeError | RuntimeError | FileNotFoundError |
  NotImplementedError

text \<open>
  A Python \<open>dict\<close> keeps its keys unique and in insertion order. It is modelled as an
  association list: \<open>d[k] = v\<close> replaces the value in place when the key exists and
  appends the pair otherwise, \<open>d[k]\<close> raises \<open>KeyError\<close> for a missing key,
  \<open>k in d\<close> tests membership, \<open>len(d)\<close> counts the entries.
\<close>

type_synonym ('k, 'v) dict = "('k \<times> 'v) list"

fun dict_setitem :: "('k, 'v) dict \<Rightarrow> 'k \<Rightarrow> 'v \<Rightarrow> ('k, 'v) dict" where
  "dict_setitem [] k v = [(k, v)]"
| "dict_setitem ((k', v') # d) k v =
     (if k' = k then (k', v) # d else (k', v') # dict_setitem d k v)"

definition dict_getitem :: "('k, 'v) dict \<Rightarrow> 'k \<Rightarrow> error + 'v" where
  "dict_getitem d k = (case map_of d k of None \<Rightarrow> Inl KeyError | Some v \<Rightarrow> Inr v)"

definition dict_contains :: "('k, 'v) dict \<Rightarrow> 'k \<Rightarrow> bool" where
  "dict_contains d k = (k \<in> set (map fst d))"

definition dict_len :: "('k, 'v) dict \<Rightarrow> nat" where
  "dict_len d = length d"

text \<open>\<open>dict(pairs)\<close> inserts the pairs from left to right, a later pair overwriting
  the value of an equal earlier key.\<close>

definition dict_of :: "('k \<times> 'v) list \<Rightarrow> ('k, 'v) dict" where
  "dict_of ps = fold (\<lambda>(k, v) d. dict_setitem d k v) ps []"

text \<open>\<open>range(a, b)\<close> is the list of the integers from \<open>a\<close> up to \<open>b - 1\<close>.\<close>

definition py_range :: "int \<Rightarrow> int \<Rightarrow> int list" where
  "py_range a b = [a..b - 1]"

text \<open>
  \<open>Series.unique()\<close> of the dataframe library returns the distinct values of a column
  in order of first appearance: it walks the column and appends every value it has not
  met before.
\<close>

definition unique :: "'a list \<Rightarrow> 'a list" where
  "unique xs = fold (\<lambda>x seen. if x \<in> set seen then seen else seen @ [x]) xs []"

section \<open>Rating notebook: vocabulary construction\<close>

text \<open>
  The notebook builds both vocabularies with the same four statements, once over the
  \<open>ReviewerID\<close> column and once over the \<open>ProductID\<close> column of the training table:
  \<^verbatim>\<open>
  user_set = list(tr_df.ReviewerID.unique())
  user_vocab = dict(zip(user_set, range(1, len(user_set) + 1)))
  user_vocab['unk'] = 0
  n_users = len(user_vocab)
  \<close>
  \<open>numbered_vocab\<close> is the dictionary after the second statement, \<open>build_vocab\<close>
  after the third, \<open>vocab_size\<close> the value of the fourth.
\<close>

record rating =
  ReviewerID :: string
  ProductID :: string
  Star :: real

definition numbered_vocab :: "string list \<Rightarrow> (string, int) dict" where
  "numbered_vocab ids =
     (let id_set = unique ids
      in dict_of (zip id_set (py_range 1 (int (length id_set) + 1))))"

definition build_vocab :: "string list \<Rightarrow> (string, int) dict" where
  "build_vocab ids = dict_setitem (numbered_vocab ids) ''unk'' 0"

definition vocab_size :: "string list \<Rightarrow> nat" where
  "vocab_size ids = dict_len (build_vocab ids)"

section \<open>Rating notebook: the model builder\<close>

text \<open>
  A layer call of the neural-network framework is recorded as a node of a symbolic graph
  that keeps the arguments of the call. The default of \<open>dropout\<close> in the source is
  the string \<open>'0.15'\<close>, the notebook's calls pass floats, so a rate is either.
\<close>

datatype rate = RateFloat real | RateStr string

datatype tensor =
    Input "nat list" string string
  | Embedding int int int tensor
  | Reshape "int list" tensor
  | Dot int "tensor list"
  | Concatenate "tensor list"
  | Dense int "string option" "string option" tensor
  | Dropout rate tensor

datatype model = Model (inputs: "tensor list") (outputs: tensor)

text \<open>
  Two of the layers check their arguments when they are constructed, and the source
  constructs them before or inside the branches on \<open>output_layer\<close>. An embedding layer
  rejects an \<open>input_dim\<close> or \<open>output_dim\<close> that is not positive with a
  \<open>ValueError\<close>. A dropout layer compares its rate with 0 and 1: a string rate fails
  the comparison with a \<open>TypeError\<close>, a number outside the interval from 0 to 1 is
  rejected with a \<open>ValueError\<close>.
\<close>

definition Embedding_layer :: "int \<Rightarrow> int \<Rightarrow> int \<Rightarrow> tensor \<Rightarrow> error + tensor" where
  "Embedding_layer output_dim input_dim input_length x =
     (if input_dim \<le> 0 \<or> output_dim \<le> 0 then Inl ValueError
      else Inr (Embedding output_dim input_dim input_length x))"

definition Dropout_layer :: "rate \<Rightarrow> tensor \<Rightarrow> error + tensor" where
  "Dropout_layer r x =
     (case r of
        RateStr s \<Rightarrow> Inl TypeError
      | RateFloat p \<Rightarrow> if 0 \<le> p \<and> p \<le> 1 then Inr (Dropout r x) else Inl ValueError)"

definition build_ncf_model :: "int \<Rightarrow> int \<Rightarrow> int \<Rightarrow> rate \<Rightarrow> string \<Rightarrow> error + model" where
  "build_ncf_model n_users n_items embed_size dropout output_layer =
     (let user_input = Input [1] ''int32'' ''user_input'';
          item_input = Input [1] ''int32'' ''item_input''
      in case Embedding_layer embed_size n_users 1 user_input of
           Inl e \<Rightarrow> Inl e
         | Inr user_embedding \<Rightarrow>
      (let user_emb = Reshape [embed_size] user_embedding
       in case Embedding_layer embed_size n_items 1 item_input of
            Inl e \<Rightarrow> Inl e
          | Inr item_embedding \<Rightarrow>
      (let item_emb = Reshape [embed_size] item_embedding
       in if output_layer = ''dot'' then
            Inr (Model [user_input, item_input] (Dot 1 [user_emb, item_emb]))
          else if output_layer = ''mlp'' then
            (let mlp_input = Concatenate [user_emb, item_emb];
                 dense_1 = Dense 64 (Some ''relu'') (Some ''l2'') mlp_input
             in case Dropout_layer dropout dense_1 of
                  Inl e \<Rightarrow> Inl e
                | Inr dense_1_dp \<Rightarrow>
             (let dense_2 = Dense 32 (Some ''relu'') (Some ''l2'') dense_1_dp
              in case Dropout_layer dropout dense_2 of
                   Inl e \<Rightarrow> Inl e
                 | Inr dense_2_dp \<Rightarrow>
                     Inr (Model [user_input, item_input] (Dense 1 None None dense_2_dp))))
          else Inl NotImplementedError)))"

section \<open>Rating notebook: index lookup over the notebook's global variables\<close>

text \<open>
  The cells of the notebook communicate through global variables. The record below holds
  the globals that the vocabulary and lookup cells read or assign; a cell is a function
  from the globals before it runs to the globals after it, or to the exception that
  stops it.
\<close>

record notebook =
  user_vocab :: "(string, int) dict"
  business_vocab :: "(string, int) dict"
  n_users :: nat
  n_items :: nat
  tr_users :: "int list"
  tr_items :: "int list"
  val_users :: "int list"
  val_items :: "int list"
  test_users :: "int list"
  test_items :: "int list"

text \<open>\<open>Series.apply(f)\<close> calls \<open>f\<close> on the values of the column from first to last
  and collects the results; an exception raised by \<open>f\<close> ends the call.\<close>

fun series_apply :: "('a \<Rightarrow> error + 'b) \<Rightarrow> 'a list \<Rightarrow> error + 'b list" where
  "series_apply f [] = Inr []"
| "series_apply f (x # xs) =
     (case f x of
        Inl e \<Rightarrow> Inl e
      | Inr y \<Rightarrow> (case series_apply f xs of Inl e \<Rightarrow> Inl e | Inr ys \<Rightarrow> Inr (y # ys)))"

text \<open>The lookup of the training cell, \<^verbatim>\<open>lambda x: user_vocab[x]\<close>, is
  \<open>dict_getitem\<close>. The lookup of the validation and test cells is
  \<^verbatim>\<open>lambda x: user_vocab[x] if x in user_vocab else 0\<close>.\<close>

definition lookup_or_unk :: "(string, int) dict \<Rightarrow> string \<Rightarrow> error + int" where
  "lookup_or_unk vocab x = (if dict_contains vocab x then dict_getitem vocab x else Inr 0)"

definition build_vocab_cell :: "rating list \<Rightarrow> notebook \<Rightarrow> notebook" where
  "build_vocab_cell tr_df nb =
     nb\<lparr>user_vocab := build_vocab (map ReviewerID tr_df),
        n_users := vocab_size (map ReviewerID tr_df),
        business_vocab := build_vocab (map ProductID tr_df),
        n_items := vocab_size (map ProductID tr_df)\<rparr>"

definition index_train_val_cell :: "rating list \<Rightarrow> rating list \<Rightarrow> notebook \<Rightarrow> error + notebook" where
  "index_train_val_cell tr_df val_df nb =
     (case series_apply (dict_getitem (user_vocab nb)) (map ReviewerID tr_df) of
        Inl e \<Rightarrow> Inl e
      | Inr tu \<Rightarrow>
     (case series_apply (dict_getitem (business_vocab nb)) (map ProductID tr_df) of
        Inl e \<Rightarrow> Inl e
      | Inr ti \<Rightarrow>
     (case series_apply (lookup_or_unk (user_vocab nb)) (map ReviewerID val_df) of
        Inl e \<Rightarrow> Inl e
      | Inr vu \<Rightarrow>
     (case series_apply (lookup_or_unk (business_vocab nb)) (map ProductID val_df) of
        Inl e \<Rightarrow> Inl e
      | Inr vi \<Rightarrow>
          Inr (nb\<lparr>tr_users := tu, tr_items := ti, val_users := vu, val_items := vi\<rparr>)))))"

definition index_test_cell :: "rating list \<Rightarrow> notebook \<Rightarrow> error + notebook" where
  "index_test_cell test_df nb =
     (case series_apply (lookup_or_unk (user_vocab nb)) (map ReviewerID test_df) of
        Inl e \<Rightarrow> Inl e
      | Inr tu \<Rightarrow>
     (case series_apply (lookup_or_unk (business_vocab nb)) (map ProductID test_df) of
        Inl e \<Rightarrow> Inl e
      | Inr ti \<Rightarrow> Inr (nb\<lparr>test_users := tu, test_items := ti\<rparr>)))"

section \<open>Rating notebook: the RMSE metric\<close>

text \<open>
  \<^verbatim>\<open>
  def rmse(pred, actual):
      pred = pred[actual.nonzero()].flatten()
      actual = actual[actual.nonzero()].flatten()
      return np.sqrt(mean_squared_error(pred, actual))
  \<close>
  Arrays are lists of real numbers: the rounding of floating-point arithmetic is not
  modelled. \<open>nonzero\<close> returns the positions of the nonzero entries in increasing
  order, \<open>array_index\<close> is indexing with an array of positions (an \<open>IndexError\<close>
  when a position is out of bounds), and \<open>flatten\<close> leaves a one-dimensional array as
  it is. \<open>mean_squared_error\<close> of the metrics library validates its arguments before it
  averages: arrays of different lengths and arrays with no sample are rejected with a
  \<open>ValueError\<close>.
\<close>

definition nonzero :: "real list \<Rightarrow> nat list" where
  "nonzero a = filter (\<lambda>i. a ! i \<noteq> 0) [0..<length a]"

definition array_index :: "real list \<Rightarrow> nat list \<Rightarrow> error + real list" where
  "array_index a idx =
     (if list_all (\<lambda>i. i < length a) idx then Inr (map (\<lambda>i. a ! i) idx) else Inl IndexError)"

definition mean_squared_error :: "real list \<Rightarrow> real list \<Rightarrow> error + real" where
  "mean_squared_error y_true y_pred =
     (if length y_true \<noteq> length y_pred then Inl ValueError
      else if y_true = [] then Inl ValueError
      else Inr (sum_list (map (\<lambda>(t, p). (t - p)\<^sup>2) (zip y_true y_pred)) / real (length y_true)))"

definition rmse :: "real list \<Rightarrow> real list \<Rightarrow> error + real" where
  "rmse pred actual =
     (case array_index pred (nonzero actual) of
        Inl e \<Rightarrow> Inl e
      | Inr pred' \<Rightarrow>
     (case array_index actual (nonzero actual) of
        Inl e \<Rightarrow> Inl e
      | Inr actual' \<Rightarrow>
     (case mean_squared_error pred' actual' of
        Inl e \<Rightarrow> Inl e
      | Inr mse \<Rightarrow> Inr (sqrt mse))))"

text \<open>The metric as the specification words it: drop the pairs whose actual value is
  zero, then take the square root of the mean of the squared differences of the rest.\<close>

definition rated_pairs :: "real list \<Rightarrow> real list \<Rightarrow> (real \<times> real) list" where
  "rated_pairs pred actual = filter (\<lambda>(p, a). a \<noteq> 0) (zip pred actual)"

definition rmse_spec :: "real list \<Rightarrow> real list \<Rightarrow> real" where
  "rmse_spec pred actual =
     sqrt ((\<Sum>(p, a) \<leftarrow> rated_pairs pred actual. (p - a)\<^sup>2) /
           real (length (rated_pairs pred actual)))"

section \<open>Sentiment notebook: loading a split\<close>

text \<open>
  A dataframe is the list of its columns, each a name with the cells of the column. The
  files on disk are a map from path to the table that \<open>read_csv\<close> parses from the
  file; a missing file raises. \<open>df.loc[:, columns]\<close> returns the listed columns in the
  listed order and raises \<open>KeyError\<close> when one of them is not a column of \<open>df\<close>.
  \<open>load_data\<close> returns what the source returns or raises, together with the lines it
  prints.
\<close>

type_synonym dataframe = "(string \<times> string list) list"

definition read_csv :: "(string \<rightharpoonup> dataframe) \<Rightarrow> string \<Rightarrow> error + dataframe" where
  "read_csv files path = (case files path of None \<Rightarrow> Inl FileNotFoundError | Some df \<Rightarrow> Inr df)"

definition loc_columns :: "dataframe \<Rightarrow> string list \<Rightarrow> error + dataframe" where
  "loc_columns df columns =
     (if list_all (\<lambda>c. c \<in> set (map fst df)) columns
      then Inr (map (\<lambda>c. (c, the (map_of df c))) columns)
      else Inl KeyError)"

fun join :: "string \<Rightarrow> string list \<Rightarrow> string" where
  "join sep [] = []"
| "join sep [x] = x"
| "join sep (x # y # ys) = x @ sep @ join sep (y # ys)"

definition csv_path :: "string \<Rightarrow> string \<Rightarrow> string" where
  "csv_path folder split_name = folder @ ''/'' @ split_name @ ''.csv''"

definition select_message :: "string \<Rightarrow> string list \<Rightarrow> string" where
  "select_message split_name columns =
     ''select ['' @ join '', '' columns @ ''] columns from the '' @ split_name @ '' split''"

definition failed_message :: "string \<Rightarrow> string" where
  "failed_message split_name =
     ''Failed loading specified columns... Returning all columns from the '' @ split_name @ '' split''"

definition load_data ::
  "(string \<rightharpoonup> dataframe) \<Rightarrow> string \<Rightarrow> string list \<Rightarrow> string \<Rightarrow> (error + dataframe) \<times> string list" where
  "load_data files split_name columns folder =
     (case (case read_csv files (csv_path folder split_name) of
              Inl e \<Rightarrow> Inl e
            | Inr df \<Rightarrow> loc_columns df columns) of
        Inr df \<Rightarrow> (Inr df, [select_message split_name columns, ''Success''])
      | Inl e \<Rightarrow>
          (read_csv files (csv_path folder split_name),
           [select_message split_name columns, failed_message split_name]))"

section \<open>Sentiment notebook: decoding the label\<close>

text \<open>
  \<^verbatim>\<open>
  logits = self.linear(output)
  label = logits[0].softmax(0).argmax() + 1
  \<close>
  The tokenizer and the pretrained encoder are a parameter: a function from the text to
  the pooled output vector. The linear head is a weight matrix with one row per class
  and a bias vector; it raises when the input does not have the width of the rows.
  \<open>argmax\<close> returns the position of the first maximal entry and raises on an empty
  vector. Numbers are reals.
\<close>

record SAM =
  class_num :: nat
  weight :: "real list list"
  bias :: "real list"

definition linear :: "SAM \<Rightarrow> real list \<Rightarrow> error + real list" where
  "linear m x =
     (if list_all (\<lambda>row. length row = length x) (weight m) \<and> length (weight m) = length (bias m)
      then Inr (map (\<lambda>(row, b). sum_list (map (\<lambda>(w, xi). w * xi) (zip row x)) + b)
                  (zip (weight m) (bias m)))
      else Inl RuntimeError)"

definition softmax :: "real list \<Rightarrow> real list" where
  "softmax xs = map (\<lambda>x. exp x / sum_list (map exp xs)) xs"

definition argmax :: "real list \<Rightarrow> error + nat" where
  "argmax xs =
     (if xs = [] then Inl IndexError
      else Inr (length (takeWhile (\<lambda>x. x \<noteq> Max (set xs)) xs)))"

definition predict :: "SAM \<Rightarrow> (string \<Rightarrow> real list) \<Rightarrow> string \<Rightarrow> error + int" where
  "predict m encoder text =
     (case linear m (encoder text) of
        Inl e \<Rightarrow> Inl e
      | Inr logits \<Rightarrow>
          (case argmax (softmax logits) of
             Inl e \<Rightarrow> Inl e
           | Inr i \<Rightarrow> Inr (int i + 1)))"

text \<open>The head that \<open>nn.Linear(768, class_num, bias=True)\<close> constructs, and that
  loading a checkpoint keeps in shape: \<open>class_num\<close> rows of width 768 and \<open>class_num\<close>
  biases.\<close>

definition head_shape :: "SAM \<Rightarrow> bool" where
  "head_shape m \<longleftrightarrow>
     length (weight m) = class_num m \<and> length (bias m) = class_num m \<and>
     list_all (\<lambda>row. length row = 768) (weight m)"

section \<open>Facts about dictionaries and first-seen numbering\<close>

lemma map_of_dict_setitem: "map_of (dict_setitem d k v) = (map_of d)(k \<mapsto> v)"
  by (induction d) (auto simp: fun_eq_iff)

lemma dict_setitem_fresh: "k \<notin> fst ` set d \<Longrightarrow> dict_setitem d k v = d @ [(k, v)]"
  by (induction d) auto

lemma length_dict_setitem:
  "length (dict_setitem d k v) = (if k \<in> fst ` set d then length d else Suc (length d))"
  by (induction d) (force split: if_splits)+

lemma keys_dict_setitem:
  "map fst (dict_setitem d k v) = (if k \<in> fst ` set d then map fst d else map fst d @ [k])"
  by (induction d) (force split: if_splits)+

lemma fold_setitem_distinct:
  "distinct ks \<Longrightarrow> length ks = length vs \<Longrightarrow> set ks \<inter> fst ` set acc = {} \<Longrightarrow>
   fold (\<lambda>(k, v) d. dict_setitem d k v) (zip ks vs) acc = acc @ zip ks vs"
proof (induction ks arbitrary: vs acc)
  case Nil
  then show ?case by simp
next
  case (Cons k ks)
  then obtain v vs' where vs: "vs = v # vs'" by (cases vs) auto
  from Cons.prems have fresh: "k \<notin> fst ` set acc" by auto
  have "set ks \<inter> fst ` set (acc @ [(k, v)]) = {}"
    using Cons.prems by auto
  with Cons.IH [of vs' "acc @ [(k, v)]"] Cons.prems vs fresh show ?case
    by (simp add: dict_setitem_fresh)
qed

lemma dict_of_distinct:
  "distinct ks \<Longrightarrow> length ks = length vs \<Longrightarrow> dict_of (zip ks vs) = zip ks vs"
  using fold_setitem_distinct [of ks vs "[]"] by (simp add: dict_of_def)

lemma unique_fold:
  "distinct acc \<Longrightarrow>
   distinct (fold (\<lambda>x seen. if x \<in> set seen then seen else seen @ [x]) xs acc) \<and>
   set (fold (\<lambda>x seen. if x \<in> set seen then seen else seen @ [x]) xs acc) = set acc \<union> set xs"
  by (induction xs arbitrary: acc) auto

lemma distinct_unique: "distinct (unique xs)"
  using unique_fold [of "[]" xs] by (simp add: unique_def)

lemma set_unique: "set (unique xs) = set xs"
  using unique_fold [of "[]" xs] by (simp add: unique_def)

lemma unique_snoc: "unique (xs @ [x]) = (if x \<in> set xs then unique xs else unique xs @ [x])"
  by (simp add: unique_def set_unique [unfolded unique_def])

lemma length_unique: "length (unique xs) = card (set xs)"
  using distinct_card [OF distinct_unique, of xs] by (simp add: set_unique)

lemma length_py_range: "length (py_range 1 (int n + 1)) = n"
  by (simp add: py_range_def)

lemma numbered_vocab_eq:
  "numbered_vocab ids = zip (unique ids) (py_range 1 (int (length (unique ids)) + 1))"
  by (simp add: numbered_vocab_def Let_def dict_of_distinct distinct_unique length_py_range)

lemma keys_numbered_vocab: "map fst (numbered_vocab ids) = unique ids"
  by (simp add: numbered_vocab_eq length_py_range)


lemma length_numbered_vocab: "length (numbered_vocab ids) = card (set ids)"
  by (simp add: numbered_vocab_eq length_py_range length_unique)

lemma map_of_numbered_vocab_nth:
  assumes "i < length (unique ids)"
  shows "map_of (numbered_vocab ids) (unique ids ! i) = Some (int i + 1)"
proof -
  let ?vs = "py_range 1 (int (length (unique ids)) + 1)"
  have len: "length (unique ids) = length ?vs" by (simp add: length_py_range)
  have "map_of (zip (unique ids) ?vs) (unique ids ! i) = Some (?vs ! i)"
    using assms len by (intro map_of_zip_nth) (simp_all add: distinct_unique)
  moreover have "?vs ! i = int i + 1"
    using assms by (simp add: py_range_def)
  ultimately show ?thesis by (simp add: numbered_vocab_eq)
qed

lemma getitem_build_vocab:
  "dict_getitem (build_vocab ids) x =
     (if x = ''unk'' then Inr 0 else dict_getitem (numbered_vocab ids) x)"
  by (simp add: dict_getitem_def build_vocab_def map_of_dict_setitem)

lemma getitem_build_vocab_nth:
  assumes "i < length (unique ids)" and "unique ids ! i \<noteq> ''unk''"
  shows "dict_getitem (build_vocab ids) (unique ids ! i) = Inr (int i + 1)"
proof -
  have "dict_getitem (build_vocab ids) (unique ids ! i) =
      dict_getitem (numbered_vocab ids) (unique ids ! i)"
    using assms(2) by (simp only: getitem_build_vocab if_False)
  then show ?thesis
    using assms(1) by (simp add: dict_getitem_def map_of_numbered_vocab_nth)
qed

lemma keys_build_vocab:
  "map fst (build_vocab ids) =
     (if ''unk'' \<in> set ids then unique ids else unique ids @ [''unk''])"
  by (simp add: build_vocab_def keys_dict_setitem keys_numbered_vocab set_unique
      flip: set_map)

lemma distinct_keys_build_vocab: "distinct (map fst (build_vocab ids))"
  by (simp add: keys_build_vocab distinct_unique set_unique)

lemma vocab_size_eq:
  "vocab_size ids = (if ''unk'' \<in> set ids then card (set ids) else card (set ids) + 1)"
proof -
  have "fst ` set (numbered_vocab ids) = set ids"
    using keys_numbered_vocab [of ids] set_unique [of ids] by (metis set_map)
  then show ?thesis
    by (simp add: vocab_size_def dict_len_def build_vocab_def length_dict_setitem
        length_numbered_vocab)
qed

lemma index_image:
  assumes "''unk'' \<notin> set ids"
  shows "dict_getitem (build_vocab ids) ` set ids = Inr ` {1..int (card (set ids))}"
proof -
  let ?n = "length (unique ids)"
  have nth: "dict_getitem (build_vocab ids) (unique ids ! i) = Inr (int i + 1)" if "i < ?n" for i
  proof (rule getitem_build_vocab_nth [OF that])
    from that have "unique ids ! i \<in> set ids"
      using nth_mem [of i "unique ids"] by (simp add: set_unique)
    with assms show "unique ids ! i \<noteq> ''unk''" by metis
  qed
  have "set ids = (\<lambda>i. unique ids ! i) ` {..<?n}"
    using set_unique [of ids] by (auto simp: set_conv_nth)
  then have "dict_getitem (build_vocab ids) ` set ids =
      (\<lambda>i. dict_getitem (build_vocab ids) (unique ids ! i)) ` {..<?n}"
    by (simp add: image_image)
  also have "\<dots> = (\<lambda>i. Inr (int i + 1)) ` {..<?n}"
    using nth by (intro image_cong) auto
  also have "\<dots> = Inr ` ((\<lambda>i. int i + 1) ` {..<?n})"
    by (simp add: image_image)
  also have "(\<lambda>i. int i + 1) ` {..<?n} = {1..int ?n}"
  proof (intro set_eqI iffI)
    fix k assume "k \<in> {1..int ?n}"
    then have "k = int (nat (k - 1)) + 1" "nat (k - 1) < ?n" by auto
    then show "k \<in> (\<lambda>i. int i + 1) ` {..<?n}" by blast
  qed auto
  finally show ?thesis by (simp add: length_unique)
qed

section \<open>Vocabulary construction\<close>

text \<open>
  Claim C1 says that for every training sequence the distinct raw IDs are numbered 1 to
  \<open>N\<close> in order of first appearance and that \<open>unk\<close> maps to 0. The code does not
  do this when a training ID is the literal \<open>unk\<close>. For the training sequence
  \<open>unk, u1\<close> numbering gives \<open>unk\<close> the index 1 and \<open>u1\<close> the index 2; the
  statement that reserves row 0 for IDs unseen in training then overwrites the index of the
  seen ID \<open>unk\<close> with 0. The indices of the two raw IDs are 0 and 2 instead of 1 and
  2, and the size of the vocabulary, which the notebook passes on as the number of
  embedding rows, is 2, so the index 2 of \<open>u1\<close> lies outside the rows 0 and 1.
\<close>

theorem build_vocab_unk_collision:
  "unique [''unk'', ''u1''] = [''unk'', ''u1''] \<and>
   numbered_vocab [''unk'', ''u1''] = [(''unk'', 1), (''u1'', 2)] \<and>
   build_vocab [''unk'', ''u1''] = [(''unk'', 0), (''u1'', 2)] \<and>
   dict_getitem (build_vocab [''unk'', ''u1'']) ''unk'' = Inr 0 \<and>
   dict_getitem (build_vocab [''unk'', ''u1'']) ''u1'' = Inr 2 \<and>
   vocab_size [''unk'', ''u1''] = 2"
proof -
  have u: "unique [''unk'', ''u1''] = [''unk'', ''u1'']" by code_simp
  have n: "numbered_vocab [''unk'', ''u1''] = [(''unk'', 1), (''u1'', 2)]" by code_simp
  have v: "build_vocab [''unk'', ''u1''] = [(''unk'', 0), (''u1'', 2)]"
    by (simp add: build_vocab_def n)
  show ?thesis
    unfolding vocab_size_def dict_len_def v by (simp add: u n dict_getitem_def)
qed

text \<open>
  What the construction does guarantee, for every training sequence: each raw ID has
  exactly one entry, distinct raw IDs have distinct indices, \<open>unk\<close> has index 0, and
  every distinct ID other than \<open>unk\<close> has its position in order of first appearance
  (counting from 1) as index. When no training ID is the literal \<open>unk\<close>, the indices of
  the raw IDs are exactly the integers from 1 to \<open>N\<close>.
\<close>

lemma build_vocab_entry_unique:
  assumes "x \<in> set ids"
  shows "\<exists>!i. (x, i) \<in> set (build_vocab ids)"
proof -
  from assms have "x \<in> fst ` set (build_vocab ids)"
    using keys_build_vocab [of ids] set_unique [of ids]
    by (metis Un_iff set_append set_map)
  then obtain i where i: "(x, i) \<in> set (build_vocab ids)" by force
  moreover have "j = i" if "(x, j) \<in> set (build_vocab ids)" for j
    using that i distinct_keys_build_vocab [of ids] by (meson eq_key_imp_eq_value)
  ultimately show ?thesis by blast
qed

lemma build_vocab_inj: "inj_on (dict_getitem (build_vocab ids)) (set ids)"
proof (rule inj_onI)
  fix x y assume x: "x \<in> set ids" and y: "y \<in> set ids"
    and eq: "dict_getitem (build_vocab ids) x = dict_getitem (build_vocab ids) y"
  obtain i j where ij: "i < length (unique ids)" "x = unique ids ! i"
      "j < length (unique ids)" "y = unique ids ! j"
    using x y set_unique [of ids] by (metis in_set_conv_nth)
  have pos: "dict_getitem (build_vocab ids) (unique ids ! k) =
      (if unique ids ! k = ''unk'' then Inr 0 else Inr (int k + 1))"
    if "k < length (unique ids)" for k
    using that getitem_build_vocab_nth [of k ids] by (simp add: getitem_build_vocab)
  from eq ij pos [of i] pos [of j] have "i = j \<or> (x = ''unk'' \<and> y = ''unk'')"
    by (auto split: if_splits)
  with ij show "x = y" by auto
qed

theorem build_vocab_first_seen:
  "(\<forall>x \<in> set ids. \<exists>!i. (x, i) \<in> set (build_vocab ids)) \<and>
   inj_on (dict_getitem (build_vocab ids)) (set ids) \<and>
   dict_getitem (build_vocab ids) ''unk'' = Inr 0 \<and>
   (\<forall>i < length (unique ids). unique ids ! i \<noteq> ''unk'' \<longrightarrow>
      dict_getitem (build_vocab ids) (unique ids ! i) = Inr (int i + 1)) \<and>
   (''unk'' \<notin> set ids \<longrightarrow>
      dict_getitem (build_vocab ids) ` set ids = Inr ` {1..int (card (set ids))})"
  using build_vocab_entry_unique [of _ ids] build_vocab_inj [of ids]
    getitem_build_vocab_nth [of _ ids] index_image [of ids]
  by (simp add: getitem_build_vocab)

text \<open>
  Claim C5. If a raw training ID is the literal \<open>unk\<close>, numbering gives it a positive
  index in the range 1 to \<open>N\<close>, the reserved entry then overwrites that index with 0, so
  the ID no longer has an index in the range, and the vocabulary has \<open>N\<close> entries. The
  vocabulary has \<open>N + 1\<close> entries exactly when no training ID is the literal \<open>unk\<close>.
\<close>

theorem unk_collision:
  "(''unk'' \<in> set ids \<longrightarrow>
      (\<exists>k. 1 \<le> k \<and> k \<le> int (card (set ids)) \<and> dict_getitem (numbered_vocab ids) ''unk'' = Inr k) \<and>
      dict_getitem (build_vocab ids) ''unk'' = Inr 0 \<and>
      dict_getitem (build_vocab ids) ''unk'' \<notin> Inr ` {1..int (card (set ids))} \<and>
      vocab_size ids = card (set ids)) \<and>
   (vocab_size ids = card (set ids) + 1 \<longleftrightarrow> ''unk'' \<notin> set ids)"
proof (intro conjI impI)
  assume "''unk'' \<in> set ids"
  then obtain i where i: "i < length (unique ids)" "unique ids ! i = ''unk''"
    using set_unique [of ids] by (metis in_set_conv_nth)
  then have "dict_getitem (numbered_vocab ids) ''unk'' = Inr (int i + 1)"
    using map_of_numbered_vocab_nth [of i ids] by (simp add: dict_getitem_def)
  moreover have "int i + 1 \<le> int (card (set ids))"
    using i(1) by (simp add: length_unique)
  ultimately show "\<exists>k. 1 \<le> k \<and> k \<le> int (card (set ids)) \<and>
      dict_getitem (numbered_vocab ids) ''unk'' = Inr k"
    by (intro exI [of _ "int i + 1"]) simp
  show "vocab_size ids = card (set ids)"
    using \<open>''unk'' \<in> set ids\<close> by (simp add: vocab_size_eq)
next
  show "dict_getitem (build_vocab ids) ''unk'' = Inr 0"
    by (simp add: getitem_build_vocab)
  then show "dict_getitem (build_vocab ids) ''unk'' \<notin> Inr ` {1..int (card (set ids))}"
    by auto
  show "vocab_size ids = card (set ids) + 1 \<longleftrightarrow> ''unk'' \<notin> set ids"
    by (simp add: vocab_size_eq)
qed

text \<open>With \<open>unk\<close> second in the training sequence its number 2 becomes 0 and the size is
  2; with the two IDs \<open>u1\<close> and \<open>u2\<close> the size is 3.\<close>

theorem unk_collision_witness:
  "''unk'' \<in> set [''u1'', ''unk''] \<and>
   dict_getitem (numbered_vocab [''u1'', ''unk'']) ''unk'' = Inr 2 \<and>
   dict_getitem (build_vocab [''u1'', ''unk'']) ''unk'' = Inr 0 \<and>
   vocab_size [''u1'', ''unk''] = 2 \<and>
   ''unk'' \<notin> set [''u1'', ''u2''] \<and> vocab_size [''u1'', ''u2''] = 3"
proof -
  have n: "numbered_vocab [''u1'', ''unk''] = [(''u1'', 1), (''unk'', 2)]" by code_simp
  have c1: "card (set [''u1'', ''unk'']) = 2" and c2: "card (set [''u1'', ''u2'']) = 2" by simp_all
  show ?thesis
    using unk_collision [of "[''u1'', ''unk'']"] unk_collision [of "[''u1'', ''u2'']"]
    unfolding c1 c2 n by (simp add: dict_getitem_def)
qed

section \<open>Index lookup at serving time\<close>

lemma dict_contains_iff: "dict_contains d k \<longleftrightarrow> map_of d k \<noteq> None"
  by (simp add: dict_contains_def map_of_eq_None_iff)

lemma lookup_or_unk_eq:
  "lookup_or_unk vocab x = Inr (case map_of vocab x of None \<Rightarrow> 0 | Some i \<Rightarrow> i)"
  by (cases "map_of vocab x") (simp_all add: lookup_or_unk_def dict_contains_iff dict_getitem_def)

lemma series_apply_total:
  "(\<And>x. x \<in> set xs \<Longrightarrow> f x = Inr (g x)) \<Longrightarrow> series_apply f xs = Inr (map g xs)"
  by (induction xs) simp_all

lemma series_apply_lookup:
  "series_apply (lookup_or_unk vocab) col =
     Inr (map (\<lambda>x. case map_of vocab x of None \<Rightarrow> 0 | Some i \<Rightarrow> i) col)"
  by (rule series_apply_total) (rule lookup_or_unk_eq)

lemma contains_build_vocab: "dict_contains (build_vocab ids) x \<longleftrightarrow> x \<in> set ids \<or> x = ''unk''"
  by (auto simp: dict_contains_def keys_build_vocab set_unique)

lemma getitem_build_vocab_seen:
  assumes "x \<in> set ids"
  shows "dict_getitem (build_vocab ids) x = Inr (the (map_of (build_vocab ids) x))"
proof -
  from assms have "dict_contains (build_vocab ids) x" by (simp add: contains_build_vocab)
  then obtain i where "map_of (build_vocab ids) x = Some i"
    by (auto simp: dict_contains_iff)
  then show ?thesis by (simp add: dict_getitem_def)
qed

text \<open>
  Claim C3. The lookup of the validation and test cells returns 0 for every ID that is
  not a key of the vocabulary; for every ID that is a key it returns the index stored
  under it, the one that plain subscripting returns; it raises in neither case, and
  neither does its application to a whole column. In particular an ID that does not
  occur in the training sequence is looked up as 0 in the vocabulary built from it.
\<close>

theorem lookup_or_unk_fallback:
  "(\<not> dict_contains vocab x \<longrightarrow> lookup_or_unk vocab x = Inr 0) \<and>
   (dict_contains vocab x \<longrightarrow>
      (\<exists>i. (x, i) \<in> set vocab \<and> dict_getitem vocab x = Inr i \<and> lookup_or_unk vocab x = Inr i)) \<and>
   (\<exists>i. lookup_or_unk vocab x = Inr i) \<and>
   (\<exists>out. series_apply (lookup_or_unk vocab) col = Inr out \<and> length out = length col) \<and>
   (x \<notin> set ids \<longrightarrow> lookup_or_unk (build_vocab ids) x = Inr 0)"
proof (intro conjI impI)
  assume "\<not> dict_contains vocab x"
  then show "lookup_or_unk vocab x = Inr 0" by (simp add: lookup_or_unk_def)
next
  assume present: "dict_contains vocab x"
  then obtain i where i: "map_of vocab x = Some i" by (auto simp: dict_contains_iff)
  then have "(x, i) \<in> set vocab" by (rule map_of_SomeD)
  moreover from i have "dict_getitem vocab x = Inr i" by (simp add: dict_getitem_def)
  moreover from i have "lookup_or_unk vocab x = Inr i" by (simp add: lookup_or_unk_eq)
  ultimately show "\<exists>i. (x, i) \<in> set vocab \<and> dict_getitem vocab x = Inr i \<and>
      lookup_or_unk vocab x = Inr i" by blast
next
  show "\<exists>i. lookup_or_unk vocab x = Inr i" by (simp add: lookup_or_unk_eq)
  show "\<exists>out. series_apply (lookup_or_unk vocab) col = Inr out \<and> length out = length col"
    by (simp add: series_apply_lookup)
next
  assume "x \<notin> set ids"
  then show "lookup_or_unk (build_vocab ids) x = Inr 0"
    by (cases "x = ''unk''")
       (simp_all add: lookup_or_unk_def contains_build_vocab getitem_build_vocab)
qed

text \<open>The scenario of the specification: with training users \<open>u1\<close> and \<open>u2\<close> the
  unseen user \<open>u3\<close> resolves to 0 and \<open>u1\<close> to its stored index 1.\<close>

theorem lookup_or_unk_fallback_witness:
  "\<not> dict_contains (build_vocab [''u1'', ''u2'']) ''u3'' \<and>
   lookup_or_unk (build_vocab [''u1'', ''u2'']) ''u3'' = Inr 0 \<and>
   dict_contains (build_vocab [''u1'', ''u2'']) ''u1'' \<and>
   lookup_or_unk (build_vocab [''u1'', ''u2'']) ''u1'' = Inr 1"
proof -
  have v: "build_vocab [''u1'', ''u2''] = [(''u1'', 1), (''u2'', 2), (''unk'', 0)]" by code_simp
  have absent: "\<not> dict_contains (build_vocab [''u1'', ''u2'']) ''u3''"
    unfolding v by (simp add: dict_contains_def)
  have present: "dict_contains (build_vocab [''u1'', ''u2'']) ''u1''"
    unfolding v by (simp add: dict_contains_def)
  have get: "dict_getitem (build_vocab [''u1'', ''u2'']) ''u1'' = Inr 1"
    unfolding v by (simp add: dict_getitem_def)
  from lookup_or_unk_fallback [of "build_vocab [''u1'', ''u2'']" "''u3''" "[]" "[]"] absent
  have "lookup_or_unk (build_vocab [''u1'', ''u2'']) ''u3'' = Inr 0" by blast
  moreover from lookup_or_unk_fallback [of "build_vocab [''u1'', ''u2'']" "''u1''" "[]" "[]"] present get
  have "lookup_or_unk (build_vocab [''u1'', ''u2'']) ''u1'' = Inr 1" by auto
  ultimately show ?thesis using absent present by simp
qed

section \<open>The vocabularies are read-only after construction\<close>

lemma index_test_cell_eq:
  "index_test_cell test_df nb =
     Inr (nb\<lparr>test_users := map (\<lambda>x. case map_of (user_vocab nb) x of None \<Rightarrow> 0 | Some i \<Rightarrow> i)
                              (map ReviewerID test_df),
             test_items := map (\<lambda>x. case map_of (business_vocab nb) x of None \<Rightarrow> 0 | Some i \<Rightarrow> i)
                              (map ProductID test_df)\<rparr>)"
  by (simp add: index_test_cell_def series_apply_lookup)

lemma index_train_val_cell_frame:
  assumes "index_train_val_cell tr_df val_df nb = Inr nb'"
  shows "user_vocab nb' = user_vocab nb \<and> business_vocab nb' = business_vocab nb \<and>
         n_users nb' = n_users nb \<and> n_items nb' = n_items nb"
  using assms by (auto simp: index_train_val_cell_def split: sum.splits)

lemma index_train_val_cell_built:
  "\<exists>nb'. index_train_val_cell tr_df val_df (build_vocab_cell tr_df nb) = Inr nb'"
proof -
  let ?nb = "build_vocab_cell tr_df nb"
  have u: "series_apply (dict_getitem (user_vocab ?nb)) (map ReviewerID tr_df) =
      Inr (map (\<lambda>x. the (map_of (user_vocab ?nb) x)) (map ReviewerID tr_df))"
    by (rule series_apply_total) (simp add: build_vocab_cell_def getitem_build_vocab_seen)
  have b: "series_apply (dict_getitem (business_vocab ?nb)) (map ProductID tr_df) =
      Inr (map (\<lambda>x. the (map_of (business_vocab ?nb) x)) (map ProductID tr_df))"
    by (rule series_apply_total) (simp add: build_vocab_cell_def getitem_build_vocab_seen)
  show ?thesis
    unfolding index_train_val_cell_def u b series_apply_lookup by simp
qed

text \<open>
  Claim C9. The cells that look indices up leave both vocabularies as they were. Whenever
  the cell that indexes the training and validation sets completes, \<open>user_vocab\<close> and
  \<open>business_vocab\<close> are the same dictionaries as before it; run after the cell that
  builds the vocabularies from the same training table it does complete, and the
  vocabularies are still the ones built; the cell that indexes the test set always
  completes and leaves both dictionaries unchanged.
\<close>

theorem vocab_read_only:
  "(\<forall>nb'. index_train_val_cell tr_df val_df nb = Inr nb' \<longrightarrow>
      user_vocab nb' = user_vocab nb \<and> business_vocab nb' = business_vocab nb) \<and>
   (\<exists>nb'. index_train_val_cell tr_df val_df (build_vocab_cell tr_df nb) = Inr nb' \<and>
      user_vocab nb' = build_vocab (map ReviewerID tr_df) \<and>
      business_vocab nb' = build_vocab (map ProductID tr_df)) \<and>
   (\<exists>nb'. index_test_cell test_df nb = Inr nb' \<and>
      user_vocab nb' = user_vocab nb \<and> business_vocab nb' = business_vocab nb)"
proof (intro conjI allI impI)
  fix nb' assume "index_train_val_cell tr_df val_df nb = Inr nb'"
  then show "user_vocab nb' = user_vocab nb" "business_vocab nb' = business_vocab nb"
    using index_train_val_cell_frame by blast+
next
  obtain nb' where run: "index_train_val_cell tr_df val_df (build_vocab_cell tr_df nb) = Inr nb'"
    using index_train_val_cell_built by blast
  from index_train_val_cell_frame [OF run]
  have "user_vocab nb' = build_vocab (map ReviewerID tr_df)"
    and "business_vocab nb' = build_vocab (map ProductID tr_df)"
    by (simp_all add: build_vocab_cell_def)
  with run show "\<exists>nb'. index_train_val_cell tr_df val_df (build_vocab_cell tr_df nb) = Inr nb' \<and>
      user_vocab nb' = build_vocab (map ReviewerID tr_df) \<and>
      business_vocab nb' = build_vocab (map ProductID tr_df)" by blast
next
  show "\<exists>nb'. index_test_cell test_df nb = Inr nb' \<and>
      user_vocab nb' = user_vocab nb \<and> business_vocab nb' = business_vocab nb"
    by (simp add: index_test_cell_eq)
qed

text \<open>Two training ratings and one validation rating by an unseen user: the cell assigns
  the four index arrays and \<open>user_vocab\<close> is unchanged.\<close>

theorem vocab_read_only_witness:
  "index_train_val_cell
     [\<lparr>ReviewerID = ''u1'', ProductID = ''p1'', Star = 5\<rparr>,
      \<lparr>ReviewerID = ''u2'', ProductID = ''p2'', Star = 3\<rparr>]
     [\<lparr>ReviewerID = ''u3'', ProductID = ''p1'', Star = 4\<rparr>]
     \<lparr>user_vocab = [(''u1'', 1), (''u2'', 2), (''unk'', 0)],
      business_vocab = [(''p1'', 1), (''p2'', 2), (''unk'', 0)],
      n_users = 3, n_items = 3, tr_users = [], tr_items = [],
      val_users = [], val_items = [], test_users = [], test_items = []\<rparr> =
   Inr \<lparr>user_vocab = [(''u1'', 1), (''u2'', 2), (''unk'', 0)],
        business_vocab = [(''p1'', 1), (''p2'', 2), (''unk'', 0)],
        n_users = 3, n_items = 3, tr_users = [1, 2], tr_items = [1, 2],
        val_users = [0], val_items = [1], test_users = [], test_items = []\<rparr> \<and>
   user_vocab \<lparr>user_vocab = [(''u1'', 1), (''u2'', 2), (''unk'', 0)],
        business_vocab = [(''p1'', 1), (''p2'', 2), (''unk'', 0)],
        n_users = 3, n_items = 3, tr_users = [1, 2], tr_items = [1, 2],
        val_users = [0], val_items = [1], test_users = [], test_items = []\<rparr> =
     [(''u1'', 1), (''u2'', 2), (''unk'', 0)]"
proof -
  let ?tr = "[\<lparr>ReviewerID = ''u1'', ProductID = ''p1'', Star = 5\<rparr>,
      \<lparr>ReviewerID = ''u2'', ProductID = ''p2'', Star = 3\<rparr>]"
  let ?val = "[\<lparr>ReviewerID = ''u3'', ProductID = ''p1'', Star = 4\<rparr>]"
  let ?nb = "\<lparr>user_vocab = [(''u1'', 1), (''u2'', 2), (''unk'', 0)],
      business_vocab = [(''p1'', 1), (''p2'', 2), (''unk'', 0)],
      n_users = 3, n_items = 3, tr_users = [], tr_items = [],
      val_users = [], val_items = [], test_users = [], test_items = []\<rparr>"
  let ?nb' = "\<lparr>user_vocab = [(''u1'', 1), (''u2'', 2), (''unk'', 0)],
        business_vocab = [(''p1'', 1), (''p2'', 2), (''unk'', 0)],
        n_users = 3, n_items = 3, tr_users = [1, 2], tr_items = [1, 2],
        val_users = [0], val_items = [1], test_users = [], test_items = []\<rparr>"
  have run: "index_train_val_cell ?tr ?val ?nb = Inr ?nb'"
    by (simp add: index_train_val_cell_def dict_getitem_def lookup_or_unk_def dict_contains_def)
  with vocab_read_only [of ?tr ?val ?nb "[]"] have "user_vocab ?nb' = user_vocab ?nb"
    by blast
  with run show ?thesis by simp
qed

section \<open>The RMSE metric\<close>

lemma zip_as_map_nth:
  assumes "length xs = length ys"
  shows "zip xs ys = map (\<lambda>i. (xs ! i, ys ! i)) [0..<length ys]"
  using assms by (intro nth_equalityI) simp_all

lemma nonzero_pairs:
  assumes "length pred = length actual"
  shows "map (\<lambda>i. (pred ! i, actual ! i)) (nonzero actual) = rated_pairs pred actual"
proof -
  have "rated_pairs pred actual =
      filter (\<lambda>(p, a). a \<noteq> 0) (map (\<lambda>i. (pred ! i, actual ! i)) [0..<length actual])"
    using zip_as_map_nth [OF assms] by (simp add: rated_pairs_def)
  also have "\<dots> = map (\<lambda>i. (pred ! i, actual ! i)) (nonzero actual)"
    by (simp add: filter_map nonzero_def comp_def)
  finally show ?thesis by simp
qed

lemma nonzero_in_bounds: "list_all (\<lambda>i. i < length actual) (nonzero actual)"
  by (simp add: nonzero_def list_all_iff)

lemma array_index_pred:
  assumes "length pred = length actual"
  shows "array_index pred (nonzero actual) = Inr (map fst (rated_pairs pred actual))"
proof -
  have "list_all (\<lambda>i. i < length pred) (nonzero actual)"
    using nonzero_in_bounds [of actual] assms by simp
  moreover have "map (\<lambda>i. pred ! i) (nonzero actual) = map fst (rated_pairs pred actual)"
    unfolding nonzero_pairs [OF assms, symmetric] by (simp add: comp_def)
  ultimately show ?thesis by (simp add: array_index_def)
qed

lemma array_index_actual:
  assumes "length pred = length actual"
  shows "array_index actual (nonzero actual) = Inr (map snd (rated_pairs pred actual))"
proof -
  have "map (\<lambda>i. actual ! i) (nonzero actual) = map snd (rated_pairs pred actual)"
    unfolding nonzero_pairs [OF assms, symmetric] by (simp add: comp_def)
  with nonzero_in_bounds [of actual] show ?thesis by (simp add: array_index_def)
qed

lemma rmse_cases:
  assumes "length pred = length actual"
  shows "rmse pred actual =
     (if rated_pairs pred actual = [] then Inl ValueError else Inr (rmse_spec pred actual))"
  by (simp add: rmse_def array_index_pred [OF assms] array_index_actual [OF assms]
      mean_squared_error_def rmse_spec_def zip_map_fst_snd)

lemma rated_pairs_empty_iff:
  assumes "length pred = length actual"
  shows "rated_pairs pred actual = [] \<longleftrightarrow> (\<forall>a \<in> set actual. a = 0)"
proof -
  have "set (map snd (zip pred actual)) = set actual"
    using assms by simp
  then show ?thesis
    unfolding rated_pairs_def filter_empty_conv by force
qed
lemma rmse_spec_nonneg: "0 \<le> rmse_spec pred actual"
proof -
  have "0 \<le> (\<Sum>(p, a) \<leftarrow> rated_pairs pred actual. (p - a)\<^sup>2)"
    by (rule sum_list_nonneg) auto
  then show ?thesis by (simp add: rmse_spec_def)
qed

lemma rmse_spec_agree:
  assumes "length pred = length actual"
    and "\<forall>i < length actual. actual ! i \<noteq> 0 \<longrightarrow> pred ! i = actual ! i"
  shows "rmse_spec pred actual = 0"
proof -
  have "p = a" if "(p, a) \<in> set (rated_pairs pred actual)" for p a
  proof -
    from that have "(p, a) \<in> set (zip pred actual)" "a \<noteq> 0" by (auto simp: rated_pairs_def)
    then obtain i where "i < length actual" "pred ! i = p" "actual ! i = a"
      using assms(1) by (auto simp: in_set_zip)
    with assms(2) \<open>a \<noteq> 0\<close> show ?thesis by auto
  qed
  then have "map (\<lambda>(p, a). (p - a)\<^sup>2) (rated_pairs pred actual) =
      map (\<lambda>_. 0) (rated_pairs pred actual)"
    by (intro map_cong) auto
  then have "(\<Sum>(p, a) \<leftarrow> rated_pairs pred actual. (p - a)\<^sup>2) =
      (\<Sum>x \<leftarrow> rated_pairs pred actual. 0)"
    by (rule arg_cong)
  also have "\<dots> = 0" by simp
  finally show ?thesis by (simp only: rmse_spec_def) simp
qed

text \<open>
  Claim C2. For every pair of sequences of equal length in which some actual entry is
  nonzero, \<open>rmse\<close> returns the square root of the mean of the squared differences over
  the pairs that remain after every pair with a zero actual value has been dropped.
\<close>

theorem rmse_definition:
  assumes "length pred = length actual" and "\<exists>a \<in> set actual. a \<noteq> 0"
  shows "rmse pred actual = Inr (rmse_spec pred actual)"
  using assms by (simp add: rmse_cases rated_pairs_empty_iff)

text \<open>Predictions 2 and 9 against actual values 1 and 0: the second pair is dropped and
  the result is 1.\<close>

theorem rmse_definition_witness:
  "length [2, 9 :: real] = length [1, 0 :: real] \<and> (\<exists>a \<in> set [1, 0 :: real]. a \<noteq> 0) \<and>
   rated_pairs [2, 9] [1, 0] = [(2, 1)] \<and> rmse [2, 9] [1, 0] = Inr 1"
proof -
  have len: "length [2, 9 :: real] = length [1, 0 :: real]" by simp
  have nz: "\<exists>a \<in> set [1, 0 :: real]. a \<noteq> 0" by simp
  have kept: "rated_pairs [2, 9] [1, 0] = [(2, 1)]" by (simp add: rated_pairs_def)
  have "rmse_spec [2, 9] [1, 0] = 1" by (simp add: rmse_spec_def kept)
  with rmse_definition [OF len nz] len nz kept show ?thesis by simp
qed

text \<open>
  Claim C4. For every pair of sequences of equal length in which every actual entry is
  zero, \<open>rmse\<close> raises: no pair is left, and the validation of the metrics library
  rejects the empty arrays with a \<open>ValueError\<close> before any mean is taken.
\<close>

theorem rmse_all_zero:
  assumes "length pred = length actual" and "\<forall>a \<in> set actual. a = 0"
  shows "rmse pred actual = Inl ValueError"
  using assms by (simp add: rmse_cases rated_pairs_empty_iff)

text \<open>Predictions 3 and 4 against two zero ratings.\<close>

theorem rmse_all_zero_witness:
  "length [3, 4 :: real] = length [0, 0 :: real] \<and> set [0, 0 :: real] = {0} \<and>
   rmse [3, 4] [0, 0] = Inl ValueError"
proof -
  have len: "length [3, 4 :: real] = length [0, 0 :: real]" by simp
  have z: "\<forall>a \<in> set [0, 0 :: real]. a = 0" by simp
  from rmse_all_zero [OF len z] show ?thesis by simp
qed

text \<open>
  Claim C6. For every pair of sequences of equal length in which some actual entry is
  nonzero: if the prediction equals the actual value at every position whose actual
  value is nonzero then \<open>rmse\<close> returns 0; and \<open>rmse\<close> returns a non-negative number.
\<close>

theorem rmse_identity_sign:
  assumes "length pred = length actual" and "\<exists>a \<in> set actual. a \<noteq> 0"
  shows "((\<forall>i < length actual. actual ! i \<noteq> 0 \<longrightarrow> pred ! i = actual ! i) \<longrightarrow>
            rmse pred actual = Inr 0) \<and>
         (\<exists>r. rmse pred actual = Inr r \<and> 0 \<le> r)"
proof -
  have run: "rmse pred actual = Inr (rmse_spec pred actual)"
    using assms by (simp add: rmse_cases rated_pairs_empty_iff)
  show ?thesis
    using run rmse_spec_nonneg [of pred actual] rmse_spec_agree [OF assms(1)] by auto
qed

text \<open>Predictions 4, 7, 5 against actual values 4, 0, 5 agree wherever a rating exists.\<close>

theorem rmse_identity_sign_witness:
  "length [4, 7, 5 :: real] = length [4, 0, 5 :: real] \<and> [4, 0, 5 :: real] ! 0 \<noteq> 0 \<and>
   [4, 7, 5 :: real] ! 0 = [4, 0, 5] ! 0 \<and> [4, 0, 5 :: real] ! 1 = 0 \<and>
   [4, 7, 5 :: real] ! 2 = [4, 0, 5] ! 2 \<and>
   rmse [4, 7, 5] [4, 0, 5] = Inr 0"
proof -
  have len: "length [4, 7, 5 :: real] = length [4, 0, 5 :: real]" by simp
  have nz: "\<exists>a \<in> set [4, 0, 5 :: real]. a \<noteq> 0" by simp
  have agree: "\<forall>i < length [4, 0, 5 :: real]. [4, 0, 5 :: real] ! i \<noteq> 0 \<longrightarrow>
      [4, 7, 5 :: real] ! i = [4, 0, 5] ! i"
    by (simp add: nth_Cons' less_Suc_eq)
  from rmse_identity_sign [OF len nz] agree have "rmse [4, 7, 5] [4, 0, 5] = Inr 0" by blast
  then show ?thesis by simp
qed

section \<open>The guard of the model builder\<close>

lemma build_ncf_model_no_guard_error:
  assumes "output_layer = ''dot'' \<or> output_layer = ''mlp''"
  shows "build_ncf_model n_u n_i embed_size dropout output_layer \<noteq> Inl NotImplementedError"
  using assms
  by (auto simp: build_ncf_model_def Embedding_layer_def Dropout_layer_def Let_def
      split: sum.splits rate.splits if_splits)

text \<open>
  Claim C10, as the code supports it. For all positive \<open>n_users\<close>, \<open>n_items\<close> and
  \<open>embed_size\<close>: \<open>build_ncf_model\<close> raises \<open>NotImplementedError\<close> when
  \<open>output_layer\<close> is neither \<open>dot\<close> nor \<open>mlp\<close>; it returns the dot-product model
  when \<open>output_layer\<close> is \<open>dot\<close>, whatever the dropout; it returns the MLP model when
  \<open>output_layer\<close> is \<open>mlp\<close> and the dropout is a number from 0 to 1. For all
  arguments, it does not raise \<open>NotImplementedError\<close> when \<open>output_layer\<close> is \<open>dot\<close>
  or \<open>mlp\<close>.
\<close>

theorem build_ncf_model_guard:
  "(0 < n_u \<and> 0 < n_i \<and> 0 < embed_size \<longrightarrow>
      (output_layer \<noteq> ''dot'' \<and> output_layer \<noteq> ''mlp'' \<longrightarrow>
         build_ncf_model n_u n_i embed_size dropout output_layer = Inl NotImplementedError) \<and>
      (output_layer = ''dot'' \<longrightarrow>
         build_ncf_model n_u n_i embed_size dropout output_layer =
           Inr (Model [Input [1] ''int32'' ''user_input'', Input [1] ''int32'' ''item_input'']
                  (Dot 1 [Reshape [embed_size] (Embedding embed_size n_u 1 (Input [1] ''int32'' ''user_input'')),
                          Reshape [embed_size] (Embedding embed_size n_i 1 (Input [1] ''int32'' ''item_input''))]))) \<and>
      (output_layer = ''mlp'' \<and> dropout = RateFloat p \<and> 0 \<le> p \<and> p \<le> 1 \<longrightarrow>
         build_ncf_model n_u n_i embed_size dropout output_layer =
           Inr (Model [Input [1] ''int32'' ''user_input'', Input [1] ''int32'' ''item_input'']
                  (Dense 1 None None
                    (Dropout dropout (Dense 32 (Some ''relu'') (Some ''l2'')
                      (Dropout dropout (Dense 64 (Some ''relu'') (Some ''l2'')
                        (Concatenate
                          [Reshape [embed_size] (Embedding embed_size n_u 1 (Input [1] ''int32'' ''user_input'')),
                           Reshape [embed_size] (Embedding embed_size n_i 1 (Input [1] ''int32'' ''item_input''))]))))))))) \<and>
   (output_layer = ''dot'' \<or> output_layer = ''mlp'' \<longrightarrow>
      build_ncf_model n_u n_i embed_size dropout output_layer \<noteq> Inl NotImplementedError)"
proof (intro conjI impI)
  assume "output_layer = ''dot'' \<or> output_layer = ''mlp''"
  then show "build_ncf_model n_u n_i embed_size dropout output_layer \<noteq> Inl NotImplementedError"
    by (rule build_ncf_model_no_guard_error)
qed (simp_all add: build_ncf_model_def Embedding_layer_def Dropout_layer_def Let_def)

text \<open>Sizes 3, 3 and 16: the name \<open>gmf\<close> is refused, \<open>dot\<close> returns the dot-product
  graph even with the string default of the rate, and \<open>mlp\<close> with rate 0 returns the
  three dense layers over the concatenated embeddings.\<close>

theorem build_ncf_model_guard_witness:
  "(0::int) < 3 \<and> (0::int) < 16 \<and> ''gmf'' \<noteq> ''dot'' \<and> ''gmf'' \<noteq> ''mlp'' \<and>
   build_ncf_model 3 3 16 (RateFloat 0) ''gmf'' = Inl NotImplementedError \<and>
   build_ncf_model 3 3 16 (RateStr ''0.15'') ''dot'' =
     Inr (Model [Input [1] ''int32'' ''user_input'', Input [1] ''int32'' ''item_input'']
            (Dot 1 [Reshape [16] (Embedding 16 3 1 (Input [1] ''int32'' ''user_input'')),
                    Reshape [16] (Embedding 16 3 1 (Input [1] ''int32'' ''item_input''))])) \<and>
   build_ncf_model 3 3 16 (RateFloat 0) ''mlp'' =
     Inr (Model [Input [1] ''int32'' ''user_input'', Input [1] ''int32'' ''item_input'']
            (Dense 1 None None
              (Dropout (RateFloat 0) (Dense 32 (Some ''relu'') (Some ''l2'')
                (Dropout (RateFloat 0) (Dense 64 (Some ''relu'') (Some ''l2'')
                  (Concatenate
                    [Reshape [16] (Embedding 16 3 1 (Input [1] ''int32'' ''user_input'')),
                     Reshape [16] (Embedding 16 3 1 (Input [1] ''int32'' ''item_input''))])))))))"
proof -
  have other: "''gmf'' \<noteq> ''dot'' \<and> ''gmf'' \<noteq> ''mlp''" by simp
  have sizes: "(0::int) < 3 \<and> (0::int) < 3 \<and> (0::int) < 16" by simp
  from build_ncf_model_guard [of 3 3 16 "''gmf''" "RateFloat 0" 0] sizes other
  have a: "build_ncf_model 3 3 16 (RateFloat 0) ''gmf'' = Inl NotImplementedError" by blast
  from build_ncf_model_guard [of 3 3 16 "''dot''" "RateStr ''0.15''" 0] sizes
  have b: "build_ncf_model 3 3 16 (RateStr ''0.15'') ''dot'' =
     Inr (Model [Input [1] ''int32'' ''user_input'', Input [1] ''int32'' ''item_input'']
            (Dot 1 [Reshape [16] (Embedding 16 3 1 (Input [1] ''int32'' ''user_input'')),
                    Reshape [16] (Embedding 16 3 1 (Input [1] ''int32'' ''item_input''))]))" by blast
  have rate: "RateFloat 0 = RateFloat 0 \<and> (0::real) \<le> 0 \<and> (0::real) \<le> 1" by simp
  from build_ncf_model_guard [of 3 3 16 "''mlp''" "RateFloat 0" 0] sizes rate
  have c: "build_ncf_model 3 3 16 (RateFloat 0) ''mlp'' =
     Inr (Model [Input [1] ''int32'' ''user_input'', Input [1] ''int32'' ''item_input'']
            (Dense 1 None None
              (Dropout (RateFloat 0) (Dense 32 (Some ''relu'') (Some ''l2'')
                (Dropout (RateFloat 0) (Dense 64 (Some ''relu'') (Some ''l2'')
                  (Concatenate
                    [Reshape [16] (Embedding 16 3 1 (Input [1] ''int32'' ''user_input'')),
                     Reshape [16] (Embedding 16 3 1 (Input [1] ''int32'' ''item_input''))])))))))" by blast
  from a b c other show ?thesis by simp
qed

text \<open>
  For every size and dropout the claim fails. The embedding layers are constructed before
  the branch on \<open>output_layer\<close>: with \<open>embed_size = 0\<close> the unknown name \<open>gmf\<close>
  ends in the \<open>ValueError\<close> of the embedding layer, not in \<open>NotImplementedError\<close>. With
  the default rate of the source, the string \<open>'0.15'\<close>, the branch \<open>mlp\<close> ends in the
  \<open>TypeError\<close> of the dropout layer and returns no model.
\<close>

theorem build_ncf_model_guard_counterexample:
  "''gmf'' \<noteq> ''dot'' \<and> ''gmf'' \<noteq> ''mlp'' \<and>
   build_ncf_model 3 3 0 (RateFloat 0) ''gmf'' = Inl ValueError \<and>
   build_ncf_model 3 3 0 (RateFloat 0) ''gmf'' \<noteq> Inl NotImplementedError \<and>
   build_ncf_model 3 3 16 (RateStr ''0.15'') ''mlp'' = Inl TypeError"
  by (simp add: build_ncf_model_def Embedding_layer_def Dropout_layer_def Let_def)

section \<open>Loading a split\<close>

lemma loc_columns_fails_iff:
  "loc_columns df columns = Inl KeyError \<longleftrightarrow> \<not> set columns \<subseteq> fst ` set df"
  by (auto simp: loc_columns_def list_all_iff)

lemma loc_columns_error: "loc_columns df columns = Inl e \<Longrightarrow> e = KeyError"
  by (simp add: loc_columns_def split: if_splits)

lemma loc_columns_selected:
  assumes "loc_columns df columns = Inr sel"
  shows "map fst sel = columns \<and> (\<forall>(c, cells) \<in> set sel. map_of df c = Some cells)"
proof -
  from assms have present: "\<forall>c \<in> set columns. c \<in> fst ` set df"
    and sel: "sel = map (\<lambda>c. (c, the (map_of df c))) columns"
    by (auto simp: loc_columns_def list_all_iff split: if_splits)
  have "map_of df c = Some (the (map_of df c))" if "c \<in> set columns" for c
  proof -
    from that present have "map_of df c \<noteq> None" by (simp add: map_of_eq_None_iff)
    then show ?thesis by auto
  qed
  then show ?thesis unfolding sel by (auto simp: comp_def)
qed

text \<open>
  Claim C8. For a split whose CSV file exists: if selecting the requested columns from
  the loaded table fails, \<open>load_data\<close> prints the failure message after the selection
  message and returns the table with all its columns, raising nothing; if the selection
  succeeds, it prints \<open>Success\<close> and returns the selection, whose columns are exactly the
  requested ones, in the requested order, each with its cells from the file. The
  selection fails exactly when a requested column is not a column of the file.
\<close>

theorem load_data_fallback:
  assumes "files (csv_path folder split_name) = Some csv"
  shows "(\<forall>e. loc_columns csv columns = Inl e \<longrightarrow>
            load_data files split_name columns folder =
              (Inr csv, [select_message split_name columns, failed_message split_name])) \<and>
         (\<forall>sel. loc_columns csv columns = Inr sel \<longrightarrow>
            load_data files split_name columns folder =
              (Inr sel, [select_message split_name columns, ''Success'']) \<and>
            map fst sel = columns \<and>
            (\<forall>(c, cells) \<in> set sel. map_of csv c = Some cells)) \<and>
         ((\<exists>e. loc_columns csv columns = Inl e) \<longleftrightarrow> \<not> set columns \<subseteq> fst ` set csv)"
proof (intro conjI allI impI)
  fix e assume "loc_columns csv columns = Inl e"
  with assms show "load_data files split_name columns folder =
      (Inr csv, [select_message split_name columns, failed_message split_name])"
    by (simp add: load_data_def read_csv_def)
next
  fix sel assume sel: "loc_columns csv columns = Inr sel"
  with assms show "load_data files split_name columns folder =
      (Inr sel, [select_message split_name columns, ''Success''])"
    by (simp add: load_data_def read_csv_def)
  from loc_columns_selected [OF sel]
  show "map fst sel = columns" and "\<forall>(c, cells) \<in> set sel. map_of csv c = Some cells"
    by blast+
next
  show "(\<exists>e. loc_columns csv columns = Inl e) \<longleftrightarrow> \<not> set columns \<subseteq> fst ` set csv"
    using loc_columns_fails_iff [of csv columns] loc_columns_error [of csv columns] by blast
qed

text \<open>A file with the columns \<open>id\<close> and \<open>text\<close>: asking for \<open>id\<close> and \<open>label\<close>
  returns both columns of the file, asking for \<open>text\<close> returns that column alone.\<close>

theorem load_data_fallback_witness:
  "[''data/valid.csv'' \<mapsto> [(''id'', [''a1'']), (''text'', [''fine''])]] (csv_path ''data'' ''valid'') =
     Some [(''id'', [''a1'']), (''text'', [''fine''])] \<and>
   loc_columns [(''id'', [''a1'']), (''text'', [''fine''])] [''id'', ''label''] = Inl KeyError \<and>
   fst (load_data [''data/valid.csv'' \<mapsto> [(''id'', [''a1'']), (''text'', [''fine''])]]
          ''valid'' [''id'', ''label''] ''data'') =
     Inr [(''id'', [''a1'']), (''text'', [''fine''])] \<and>
   loc_columns [(''id'', [''a1'']), (''text'', [''fine''])] [''text''] = Inr [(''text'', [''fine''])] \<and>
   fst (load_data [''data/valid.csv'' \<mapsto> [(''id'', [''a1'']), (''text'', [''fine''])]]
          ''valid'' [''text''] ''data'') =
     Inr [(''text'', [''fine''])]"
proof -
  let ?csv = "[(''id'', [''a1'']), (''text'', [''fine''])]"
  let ?files = "[''data/valid.csv'' \<mapsto> ?csv]"
  have on_disk: "?files (csv_path ''data'' ''valid'') = Some ?csv" by (simp add: csv_path_def)
  have bad: "loc_columns ?csv [''id'', ''label''] = Inl KeyError" by (simp add: loc_columns_def)
  have good: "loc_columns ?csv [''text''] = Inr [(''text'', [''fine''])]" by (simp add: loc_columns_def)
  from load_data_fallback [of ?files "''data''" "''valid''" ?csv "[''id'', ''label'']", OF on_disk] bad
  have "fst (load_data ?files ''valid'' [''id'', ''label''] ''data'') = Inr ?csv" by simp
  moreover from load_data_fallback [of ?files "''data''" "''valid''" ?csv "[''text'']", OF on_disk] good
  have "fst (load_data ?files ''valid'' [''text''] ''data'') = Inr [(''text'', [''fine''])]" by simp
  ultimately show ?thesis using on_disk bad good by blast
qed

section \<open>Decoding the label\<close>

lemma argmax_first:
  assumes "xs \<noteq> []"
  shows "\<exists>i. argmax xs = Inr i \<and> i < length xs \<and> xs ! i = Max (set xs) \<and>
             (\<forall>j < i. xs ! j < xs ! i)"
proof -
  let ?P = "\<lambda>x. x \<noteq> Max (set xs)"
  let ?i = "length (takeWhile ?P xs)"
  have "Max (set xs) \<in> set xs" using assms by (intro Max_in) simp_all
  then have "takeWhile ?P xs \<noteq> xs" by (auto simp: takeWhile_eq_all_conv)
  then have "?i \<noteq> length xs"
    by (metis takeWhile_eq_take take_all order_refl)
  with length_takeWhile_le [of ?P xs] have less: "?i < length xs" by simp
  then have top: "xs ! ?i = Max (set xs)" using nth_length_takeWhile [of ?P xs] by simp
  have "xs ! j < xs ! ?i" if "j < ?i" for j
  proof -
    from that have "takeWhile ?P xs ! j = xs ! j" by (rule takeWhile_nth)
    moreover from that have "takeWhile ?P xs ! j \<in> set (takeWhile ?P xs)" by simp
    ultimately have "xs ! j \<noteq> Max (set xs)" by (metis set_takeWhileD)
    moreover have "xs ! j \<le> Max (set xs)" using that less by (intro Max_ge) simp_all
    ultimately show ?thesis using top by simp
  qed
  with less top assms show ?thesis by (simp add: argmax_def)
qed

lemma linear_head_shape:
  assumes "head_shape m" and "length x = 768"
  shows "\<exists>logits. linear m x = Inr logits \<and> length logits = class_num m"
  using assms by (simp add: head_shape_def linear_def)

text \<open>
  Claim C7. For a model whose linear head has the shape its constructor gives it, with at
  least one class, and an encoder that returns vectors of width 768: for every text,
  \<open>predict\<close> returns the position of the first maximal entry of the softmax of the
  logits, plus one; the label lies between 1 and \<open>class_num\<close>.
\<close>

theorem predict_label_range:
  assumes "head_shape m" and "0 < class_num m" and "length (encoder text) = 768"
  shows "\<exists>logits i. linear m (encoder text) = Inr logits \<and> length logits = class_num m \<and>
           argmax (softmax logits) = Inr i \<and>
           softmax logits ! i = Max (set (softmax logits)) \<and>
           (\<forall>j < i. softmax logits ! j < softmax logits ! i) \<and>
           predict m encoder text = Inr (int i + 1) \<and>
           1 \<le> int i + 1 \<and> int i + 1 \<le> int (class_num m)"
proof -
  obtain logits where logits: "linear m (encoder text) = Inr logits" "length logits = class_num m"
    using linear_head_shape [OF assms(1,3)] by blast
  with assms(2) have "softmax logits \<noteq> []" by (auto simp: softmax_def)
  then obtain i where i: "argmax (softmax logits) = Inr i" "i < length (softmax logits)"
      "softmax logits ! i = Max (set (softmax logits))"
      "\<forall>j < i. softmax logits ! j < softmax logits ! i"
    using argmax_first by blast
  from i(2) logits(2) have "int i + 1 \<le> int (class_num m)" by (simp add: softmax_def)
  moreover have "predict m encoder text = Inr (int i + 1)"
    by (simp add: predict_def logits(1) i(1))
  ultimately show ?thesis using logits i by auto
qed

text \<open>Five classes, as in the notebook, with all logits equal: the first class wins the
  tie and the label is 1, which lies between 1 and 5.\<close>

theorem predict_label_range_witness:
  "head_shape \<lparr>class_num = 5, weight = replicate 5 (replicate 768 0), bias = [0, 0, 0, 0, 0]\<rparr> \<and>
   0 < class_num \<lparr>class_num = 5, weight = replicate 5 (replicate 768 0), bias = [0, 0, 0, 0, 0]\<rparr> \<and>
   length ((\<lambda>t. replicate 768 (1::real)) ''good'') = 768 \<and>
   predict \<lparr>class_num = 5, weight = replicate 5 (replicate 768 0), bias = [0, 0, 0, 0, 0]\<rparr>
     (\<lambda>t. replicate 768 1) ''good'' = Inr 1 \<and>
   (\<exists>i. predict \<lparr>class_num = 5, weight = replicate 5 (replicate 768 0), bias = [0, 0, 0, 0, 0]\<rparr>
          (\<lambda>t. replicate 768 1) ''good'' = Inr (int i + 1) \<and>
        1 \<le> int i + 1 \<and> int i + 1 \<le> 5)"
proof -
  let ?m = "\<lparr>class_num = 5, weight = replicate 5 (replicate 768 0), bias = [0, 0, 0, 0, 0]\<rparr>"
  let ?enc = "\<lambda>t::string. replicate 768 (1::real)"
  have shape: "head_shape ?m" by (simp add: head_shape_def list_all_iff)
  have pos: "0 < class_num ?m" by simp
  have len: "length (?enc ''good'') = 768" by simp
  have label: "predict ?m ?enc ''good'' = Inr 1"
    by (simp add: predict_def linear_def softmax_def argmax_def list_all_iff numeral_eq_Suc)
  from predict_label_range [OF shape pos len]
  have "\<exists>i. predict ?m ?enc ''good'' = Inr (int i + 1) \<and> 1 \<le> int i + 1 \<and> int i + 1 \<le> 5"
    by auto
  with shape pos len label show ?thesis by blast
qed

end
